theory Spec2Isabelle
  imports Complex_Main "HOL-Library.Word"
begin

section \<open>Data model of the processor chain\<close>

text \<open>
  The development embeds \<^verbatim>\<open>Server/Source/ProcessorChain.cpp\<close>. The chain keeps an
  ordered vector of stage handles and a handful of aggregate fields. The model is
  sequential: each operation is a state transformer, as one caller sees it when no
  other thread runs between its steps (the operations guard the vector with one mutex).
  C++ \<^verbatim>\<open>int\<close> values are \<open>int\<close>: the sums formed by the chain add sample counts
  and channel counts, and signed overflow is undefined in C++, so the model describes
  the executions in which it does not occur. \<^verbatim>\<open>double\<close> and \<^verbatim>\<open>float\<close> values are
  only stored, copied and compared by the chain (never computed with), and are \<open>real\<close>.
  A stage handle is held by the chain once, so the list holds the stages by value.
\<close>

datatype AudioChannelSet = Mono | Stereo | DiscreteChannels int

record BusesLayout =
  inputBuses :: "AudioChannelSet list"
  outputBuses :: "AudioChannelSet list"

text \<open>
  A stage (\<^verbatim>\<open>Processor\<close>) is declared outside the translated file. The record holds
  what the chain reads from a stage through its getters and writes through its
  setters.
\<close>

record Processor =
  chainIndex :: int
  loaded :: bool
  suspended :: bool
  latencySamples :: int
  tailLengthSeconds :: real
  doublePrecision :: bool
  extraInChannels :: int
  extraOutChannels :: int
  needsDisabledSidechain :: bool
  supportedBusLayouts :: "BusesLayout list"
  busesLayout :: BusesLayout
  layoutName :: string

text \<open>
  The chain: its own members (\<^verbatim>\<open>m_...\<close>) and the state of the \<^verbatim>\<open>AudioProcessor\<close>
  base class it reads and writes (\<open>ap_...\<close>). \<open>ap_setLatencyCalls\<close> lists the
  arguments of the calls of \<^verbatim>\<open>setLatencySamples\<close> in order: that call is how a latency
  change is reported to the host.
\<close>

record ProcessorChain =
  m_processors :: "Processor list"
  m_extraChannels :: int
  m_hasSidechain :: bool
  m_sidechainDisabled :: bool
  m_supportsDoublePrecision :: bool
  m_tailSecs :: real
  ap_busesLayout :: BusesLayout
  ap_latencySamples :: int
  ap_sampleRate :: real
  ap_blockSize :: int
  ap_setLatencyCalls :: "int list"

definition jmax3 :: "int \<Rightarrow> int \<Rightarrow> int \<Rightarrow> int" where
  "jmax3 a b c = max a (max b c)"

definition setLatencySamples :: "ProcessorChain \<Rightarrow> int \<Rightarrow> ProcessorChain" where
  "setLatencySamples c newLatency =
     c\<lparr>ap_latencySamples := newLatency,
       ap_setLatencyCalls := ap_setLatencyCalls c @ [newLatency]\<rparr>"

definition getTailLengthSeconds :: "ProcessorChain \<Rightarrow> real" where
  "getTailLengthSeconds c = m_tailSecs c"

section \<open>Aggregate recomputation\<close>

text \<open>
  \<^verbatim>\<open>updateNoLock\<close>: one pass over the stages accumulates the latency sum, the
  double-precision conjunction, the extra-channel maximum and the sidechain flag; the
  latency is written only when it differs; the tail is read from the first stage, seen
  from the end, that is not suspended. No operation stores a null handle (adding one
  dereferences it first), so the list holds stages, not optional stages.
\<close>

definition updateStep ::
  "bool \<Rightarrow> Processor \<Rightarrow> int \<times> bool \<times> int \<times> bool \<Rightarrow> int \<times> bool \<times> int \<times> bool" where
  "updateStep hasSidechain proc acc =
     (case acc of (latency, supportsDouble, extraChannels, sidechainDisabled) \<Rightarrow>
        (latency + latencySamples proc,
         (if \<not> doublePrecision proc then False else supportsDouble),
         jmax3 extraChannels (extraInChannels proc) (extraOutChannels proc),
         hasSidechain \<and> (sidechainDisabled \<or> needsDisabledSidechain proc)))"

fun skipSuspended :: "Processor list \<Rightarrow> Processor list" where
  "skipSuspended [] = []"
| "skipSuspended (p # ps) = (if suspended p then skipSuspended ps else p # ps)"

definition updateNoLock :: "ProcessorChain \<Rightarrow> ProcessorChain" where
  "updateNoLock c =
     (case fold (updateStep (m_hasSidechain c)) (m_processors c) (0, True, 0, False) of
        (latency, supportsDouble, extraChannels, sidechainDisabled) \<Rightarrow>
          let c1 = c\<lparr>m_extraChannels := extraChannels,
                     m_sidechainDisabled := sidechainDisabled\<rparr>;
              c2 = (if latency \<noteq> ap_latencySamples c1
                    then setLatencySamples c1 latency else c1);
              c3 = c2\<lparr>m_supportsDoublePrecision := supportsDouble\<rparr>
          in (case skipSuspended (rev (m_processors c3)) of
                [] \<Rightarrow> c3\<lparr>m_tailSecs := 0\<rparr>
              | p # rest \<Rightarrow> c3\<lparr>m_tailSecs := tailLengthSeconds p\<rparr>))"

section \<open>Mutations of the stage list\<close>

definition addProcessor :: "ProcessorChain \<Rightarrow> Processor \<Rightarrow> ProcessorChain" where
  "addProcessor c processor =
     updateNoLock
       (c\<lparr>m_processors :=
            m_processors c @ [processor\<lparr>chainIndex := int (length (m_processors c))\<rparr>]\<rparr>)"

text \<open>
  The loop of \<^verbatim>\<open>delProcessor\<close>: a counter runs along the vector, the element at
  which it equals \<^verbatim>\<open>idx\<close> is unloaded and erased, and the loop stops.
\<close>

fun eraseAt :: "int \<Rightarrow> int \<Rightarrow> Processor list \<Rightarrow> Processor list" where
  "eraseAt i idx [] = []"
| "eraseAt i idx (p # ps) = (if i = idx then ps else p # eraseAt (i + 1) idx ps)"

definition delProcessor :: "ProcessorChain \<Rightarrow> int \<Rightarrow> ProcessorChain" where
  "delProcessor c idx =
     updateNoLock (c\<lparr>m_processors := eraseAt 0 idx (m_processors c)\<rparr>)"

definition exchangeProcessors :: "ProcessorChain \<Rightarrow> int \<Rightarrow> int \<Rightarrow> ProcessorChain" where
  "exchangeProcessors c idxA idxB =
     (let ps = m_processors c in
      if idxA > -1 \<and> nat idxA < length ps \<and> idxB > -1 \<and> nat idxB < length ps then
        let a = nat idxA; b = nat idxB;
            ps1 = ps[a := ps ! b, b := ps ! a];
            ps2 = ps1[a := (ps1 ! a)\<lparr>chainIndex := idxA\<rparr>];
            ps3 = ps2[b := (ps2 ! b)\<lparr>chainIndex := idxB\<rparr>]
        in c\<lparr>m_processors := ps3\<rparr>
      else c)"

section \<open>Queries\<close>

text \<open>
  The two indexed queries return their answer together with the chain as they leave
  it. The null handle is \<open>None\<close>. What a stage answers for a parameter is the stage's
  own business and is a parameter of the model.
\<close>

definition getProcessor :: "ProcessorChain \<Rightarrow> int \<Rightarrow> Processor option \<times> ProcessorChain" where
  "getProcessor c index =
     (if index > -1 \<and> nat index < length (m_processors c)
      then (Some (m_processors c ! nat index), c)
      else (None, c))"

definition getParameterValue ::
  "(Processor \<Rightarrow> int \<Rightarrow> real) \<Rightarrow> ProcessorChain \<Rightarrow> int \<Rightarrow> int \<Rightarrow> real \<times> ProcessorChain" where
  "getParameterValue stageParameterValue c idx paramIdx =
     (if idx > -1 \<and> nat idx < length (m_processors c)
      then (stageParameterValue (m_processors c ! nat idx) paramIdx, c)
      else (0, c))"

section \<open>Adding a plugin stage\<close>

text \<open>
  \<^verbatim>\<open>addPluginProcessor\<close> constructs a stage, loads it and appends it. Construction and
  \<^verbatim>\<open>Processor::load\<close> belong to the stage and are parameters: \<open>newProcessor\<close> gives the
  fresh stage for an id, sample rate and block size, and \<open>load\<close> takes the stage, the
  arguments and the caller's error text and gives the success flag, the error text and
  the stage as loading left it. The result is the returned flag, the error text and the
  chain.
\<close>

type_synonym stageLoad =
  "Processor \<Rightarrow> string \<Rightarrow> string \<Rightarrow> bool \<Rightarrow> 64 word \<Rightarrow> string \<Rightarrow> bool \<times> string \<times> Processor"

definition addPluginProcessor ::
  "(string \<Rightarrow> real \<Rightarrow> int \<Rightarrow> Processor) \<Rightarrow> stageLoad \<Rightarrow> ProcessorChain \<Rightarrow>
   string \<Rightarrow> string \<Rightarrow> string \<Rightarrow> bool \<Rightarrow> 64 word \<Rightarrow> string \<Rightarrow> bool \<times> string \<times> ProcessorChain" where
  "addPluginProcessor newProcessor load c ident settings layout multiMono monoChannels err =
     (if multiMono then (False, ''Multi-Mono layout not yet implemented'', c)
      else
        let proc = newProcessor ident (ap_sampleRate c) (ap_blockSize c) in
        (case load proc settings layout multiMono monoChannels err of
           (success, err', proc') \<Rightarrow> (success, err', addProcessor c proc')))"

section \<open>The nominal layout of the chain\<close>

text \<open>
  \<^verbatim>\<open>updateChannels\<close> first builds a layout from the three channel counts, bus by
  bus, by three chains of comparisons. \<open>updateChannelsLayout\<close> is that local variable
  \<^verbatim>\<open>layout\<close> at the point where it is handed to \<^verbatim>\<open>setBusesLayout\<close>.
\<close>

definition updateChannelsLayout :: "int \<Rightarrow> int \<Rightarrow> int \<Rightarrow> BusesLayout" where
  "updateChannelsLayout channelsIn channelsOut channelsSC =
     (let mainIn = (if channelsIn = 1 then [Mono]
                    else if channelsIn = 2 then [Stereo]
                    else if channelsIn > 0 then [DiscreteChannels channelsIn]
                    else []);
          sidechainIn = (if channelsSC = 1 then [Mono]
                         else if channelsSC = 2 then [Stereo]
                         else if channelsSC > 0 then [DiscreteChannels channelsIn]
                         else []);
          mainOut = (if channelsOut = 1 then [Mono]
                     else if channelsOut = 2 then [Stereo]
                     else if channelsOut > 0 then [DiscreteChannels channelsOut]
                     else [])
      in \<lparr>inputBuses = mainIn @ sidechainIn, outputBuses = mainOut\<rparr>)"

section \<open>Layout negotiation\<close>

text \<open>
  \<^verbatim>\<open>setProcessorBusesLayout\<close> uses four operations defined elsewhere: the channel
  count of a layout on one side (\<^verbatim>\<open>getLayoutNumChannels\<close>), the description of the
  outputs of a layout (\<^verbatim>\<open>describeLayout(l, false, true, true)\<close>), the probing of a
  stage for its layouts (\<^verbatim>\<open>Processor::findSupportedLayouts\<close>) and the stage's own
  \<^verbatim>\<open>setBusesLayout\<close>, which answers whether it took the layout and leaves the stage
  changed or not. They are the fields of \<open>Collaborators\<close>.
\<close>

record Collaborators =
  getLayoutNumChannels :: "BusesLayout \<Rightarrow> bool \<Rightarrow> int"
  describeLayout :: "BusesLayout \<Rightarrow> string"
  findSupportedLayouts :: "Processor \<Rightarrow> BusesLayout list"
  stageSetBusesLayout :: "Processor \<Rightarrow> BusesLayout \<Rightarrow> bool \<times> Processor"

text \<open>The four locals that the scans assign together.\<close>

record Target =
  targetLayout :: BusesLayout
  targetChIn :: int
  targetChOut :: int
  found :: bool

definition noTarget :: Target where
  "noTarget = \<lparr>targetLayout = \<lparr>inputBuses = [], outputBuses = []\<rparr>,
               targetChIn = 0, targetChOut = 0, found = False\<rparr>"

definition take_layout :: "Collaborators \<Rightarrow> BusesLayout \<Rightarrow> Target" where
  "take_layout E l = \<lparr>targetLayout = l, targetChIn = getLayoutNumChannels E l True,
                      targetChOut = getLayoutNumChannels E l False, found = True\<rparr>"

text \<open>The scan for a named target output layout; the first branch is the \<^verbatim>\<open>break\<close>.\<close>

fun namedScan :: "Collaborators \<Rightarrow> string \<Rightarrow> int \<Rightarrow> BusesLayout list \<Rightarrow> Target \<Rightarrow> Target" where
  "namedScan E targetOutputLayout chIn [] t = t"
| "namedScan E targetOutputLayout chIn (l # ls) t =
     (let checkChIn = getLayoutNumChannels E l True;
          checkChOut = getLayoutNumChannels E l False;
          soutputs = describeLayout E l
      in if soutputs = targetOutputLayout then
           (if chIn = 0 \<or> checkChIn = checkChOut then take_layout E l
            else if checkChIn > targetChIn t
                 then namedScan E targetOutputLayout chIn ls (take_layout E l)
                 else namedScan E targetOutputLayout chIn ls t)
         else namedScan E targetOutputLayout chIn ls t)"

text \<open>The scan for a layout with the chain's number of output channels.\<close>

fun matchingOutScan :: "Collaborators \<Rightarrow> int \<Rightarrow> int \<Rightarrow> BusesLayout list \<Rightarrow> Target \<Rightarrow> Target" where
  "matchingOutScan E chIn chOut [] t = t"
| "matchingOutScan E chIn chOut (l # ls) t =
     (let checkChIn = getLayoutNumChannels E l True;
          checkChOut = getLayoutNumChannels E l False
      in if checkChOut = chOut \<and> (chIn = 0 \<or> checkChIn > targetChIn t)
         then matchingOutScan E chIn chOut ls (take_layout E l)
         else matchingOutScan E chIn chOut ls t)"

text \<open>The scan for the most output channels, then the most input channels.\<close>

fun highestScan :: "Collaborators \<Rightarrow> BusesLayout list \<Rightarrow> Target \<Rightarrow> Target" where
  "highestScan E [] t = t"
| "highestScan E (l # ls) t =
     (let checkChIn = getLayoutNumChannels E l True;
          checkChOut = getLayoutNumChannels E l False
      in if checkChOut > targetChOut t \<or> (checkChOut = targetChOut t \<and> checkChIn > targetChIn t)
         then highestScan E ls (take_layout E l)
         else highestScan E ls t)"

definition fallbackTarget :: "Collaborators \<Rightarrow> Processor \<Rightarrow> Target \<Rightarrow> Target" where
  "fallbackTarget E proc t =
     t\<lparr>targetLayout := busesLayout proc,
       targetChIn := getLayoutNumChannels E (busesLayout proc) True,
       targetChOut := getLayoutNumChannels E (busesLayout proc) False\<rparr>"

text \<open>
  \<open>negotiate\<close> is the body of \<^verbatim>\<open>setProcessorBusesLayout\<close> up to the point where the
  four locals are final: it gives them and the stage (changed only by the stage's own
  \<^verbatim>\<open>setBusesLayout\<close>).
\<close>

definition negotiate ::
  "Collaborators \<Rightarrow> ProcessorChain \<Rightarrow> Processor \<Rightarrow> string \<Rightarrow> Target \<times> Processor" where
  "negotiate E c proc targetOutputLayout =
     (let layout = ap_busesLayout c;
          chIn = getLayoutNumChannels E layout True;
          chOut = getLayoutNumChannels E layout False;
          procLayouts = (if supportedBusLayouts proc = [] then findSupportedLayouts E proc
                         else supportedBusLayouts proc)
      in if targetOutputLayout \<noteq> [] \<and> targetOutputLayout \<noteq> ''Default''
         then (namedScan E targetOutputLayout chIn procLayouts noTarget, proc)
         else
           let t = (if layout \<in> set procLayouts
                    then \<lparr>targetLayout = layout, targetChIn = chIn, targetChOut = chOut,
                          found = True\<rparr>
                    else
                      let t1 = matchingOutScan E chIn chOut procLayouts noTarget
                      in if \<not> found t1 then highestScan E procLayouts t1 else t1)
           in if \<not> found t then (fallbackTarget E proc t, proc)
              else (case stageSetBusesLayout E proc (targetLayout t) of
                      (accepted, proc') \<Rightarrow>
                        if \<not> accepted then (fallbackTarget E proc' t, proc') else (t, proc')))"

definition setProcessorBusesLayout ::
  "Collaborators \<Rightarrow> ProcessorChain \<Rightarrow> Processor \<Rightarrow> string \<Rightarrow> bool \<times> ProcessorChain \<times> Processor" where
  "setProcessorBusesLayout E c proc targetOutputLayout =
     (if \<not> loaded proc then (False, c, proc)
      else
        (case negotiate E c proc targetOutputLayout of
           (t, proc1) \<Rightarrow>
             if found t then
               let chIn = getLayoutNumChannels E (ap_busesLayout c) True;
                   chOut = getLayoutNumChannels E (ap_busesLayout c) False;
                   extraInChannels' = targetChIn t - chIn;
                   extraOutChannels' = targetChOut t - chOut
               in (True,
                   c\<lparr>m_extraChannels :=
                       jmax3 (m_extraChannels c) extraInChannels' extraOutChannels'\<rparr>,
                   proc1\<lparr>extraInChannels := extraInChannels',
                         extraOutChannels := extraOutChannels'\<rparr>)
             else (False, c, proc1)))"

text \<open>
  \<^verbatim>\<open>updateChannels\<close>: the chain's own \<^verbatim>\<open>setBusesLayout\<close> is the base class's; whether
  it takes the layout is the parameter \<open>layoutSupported\<close>, and a refusal is only logged.
  Then the three members are reset and every stage is negotiated again, in order, with
  the layout name the stage reports.
\<close>

fun renegotiateAll ::
  "Collaborators \<Rightarrow> ProcessorChain \<Rightarrow> Processor list \<Rightarrow> ProcessorChain \<times> Processor list" where
  "renegotiateAll E c [] = (c, [])"
| "renegotiateAll E c (proc # procs) =
     (case setProcessorBusesLayout E c proc (layoutName proc) of
        (ok, c', proc') \<Rightarrow>
          (case renegotiateAll E c' procs of (c'', procs') \<Rightarrow> (c'', proc' # procs')))"

definition updateChannels ::
  "(BusesLayout \<Rightarrow> bool) \<Rightarrow> Collaborators \<Rightarrow> ProcessorChain \<Rightarrow> int \<Rightarrow> int \<Rightarrow> int \<Rightarrow>
   bool \<times> ProcessorChain" where
  "updateChannels layoutSupported E c channelsIn channelsOut channelsSC =
     (let layout = updateChannelsLayout channelsIn channelsOut channelsSC;
          c1 = (if layoutSupported layout then c\<lparr>ap_busesLayout := layout\<rparr> else c);
          c2 = c1\<lparr>m_extraChannels := 0, m_hasSidechain := (channelsSC > 0),
                  m_sidechainDisabled := False\<rparr>
      in (case renegotiateAll E c2 (m_processors c2) of
            (c3, procs) \<Rightarrow> (True, c3\<lparr>m_processors := procs\<rparr>)))"

section \<open>Block processing\<close>

text \<open>
  A sample block has a channel count, a length in samples and its contents (the samples
  together with the MIDI events handed over with them); the contents are opaque to the
  chain. A stage's \<^verbatim>\<open>processBlock\<close> is a parameter: from the stage and the block it
  gives whether the stage ran, the stage afterwards and the contents it left in the
  block, whose dimensions it does not change.
\<close>

record 'b AudioBuffer =
  numChannels :: int
  numSamples :: int
  contents :: 'b

type_synonym 'b stageProcessBlock =
  "Processor \<Rightarrow> 'b AudioBuffer \<Rightarrow> bool \<times> Processor \<times> 'b"

definition channelSetSize :: "AudioChannelSet \<Rightarrow> int" where
  "channelSetSize s = (case s of Mono \<Rightarrow> 1 | Stereo \<Rightarrow> 2 | DiscreteChannels n \<Rightarrow> max n 0)"

definition getBusCount :: "ProcessorChain \<Rightarrow> bool \<Rightarrow> int" where
  "getBusCount c isInput =
     int (length (if isInput then inputBuses (ap_busesLayout c)
                  else outputBuses (ap_busesLayout c)))"

definition getTotalNumInputChannels :: "ProcessorChain \<Rightarrow> int" where
  "getTotalNumInputChannels c = sum_list (map channelSetSize (inputBuses (ap_busesLayout c)))"

definition getTotalNumOutputChannels :: "ProcessorChain \<Rightarrow> int" where
  "getTotalNumOutputChannels c = sum_list (map channelSetSize (outputBuses (ap_busesLayout c)))"

text \<open>
  The loop of \<^verbatim>\<open>processBlockInternal\<close> over the stages, in order, with the running
  latency: a stage's latency is read after its \<^verbatim>\<open>processBlock\<close> has returned, and
  added only when that call returned true.
\<close>

fun processStages ::
  "'b stageProcessBlock \<Rightarrow> Processor list \<Rightarrow> 'b AudioBuffer \<Rightarrow> int \<Rightarrow>
   Processor list \<times> 'b AudioBuffer \<times> int" where
  "processStages stageProcess [] buffer latency = ([], buffer, latency)"
| "processStages stageProcess (proc # procs) buffer latency =
     (case stageProcess proc buffer of
        (didRun, proc', data) \<Rightarrow>
          (case processStages stageProcess procs (buffer\<lparr>contents := data\<rparr>)
                  (if didRun then latency + latencySamples proc' else latency) of
             (procs', buffer', latency') \<Rightarrow> (proc' # procs', buffer', latency')))"

text \<open>
  \<open>clearSidechain\<close> stands for clearing the bus buffer of input bus 1 inside the
  block.
\<close>

definition processBlockInternal ::
  "'b stageProcessBlock \<Rightarrow> ('b \<Rightarrow> 'b) \<Rightarrow> ProcessorChain \<Rightarrow> 'b AudioBuffer \<Rightarrow>
   ProcessorChain \<times> 'b AudioBuffer" where
  "processBlockInternal stageProcess clearSidechain c buffer =
     (let buffer0 = (if getBusCount c True > 1 \<and> m_sidechainDisabled c
                     then buffer\<lparr>contents := clearSidechain (contents buffer)\<rparr>
                     else buffer)
      in (case processStages stageProcess (m_processors c) buffer0 0 of
            (procs, buffer1, latency) \<Rightarrow>
              let c1 = c\<lparr>m_processors := procs\<rparr>
              in ((if latency \<noteq> ap_latencySamples c1 then setLatencySamples c1 latency
                   else c1), buffer1)))"

text \<open>
  For the statement about the latency total: the outcome of every stage of one block,
  in order (whether it ran, and the stage after its call), each stage seeing the block as
  its predecessors left it.
\<close>

fun stageOutcomes ::
  "'b stageProcessBlock \<Rightarrow> Processor list \<Rightarrow> 'b AudioBuffer \<Rightarrow> (bool \<times> Processor) list" where
  "stageOutcomes stageProcess [] buffer = []"
| "stageOutcomes stageProcess (proc # procs) buffer =
     (case stageProcess proc buffer of
        (didRun, proc', data) \<Rightarrow>
          (didRun, proc') # stageOutcomes stageProcess procs (buffer\<lparr>contents := data\<rparr>))"

definition blockLatencyTotal ::
  "'b stageProcessBlock \<Rightarrow> ('b \<Rightarrow> 'b) \<Rightarrow> ProcessorChain \<Rightarrow> 'b AudioBuffer \<Rightarrow> int" where
  "blockLatencyTotal stageProcess clearSidechain c buffer =
     sum_list (map (\<lambda>outcome. latencySamples (snd outcome))
       (filter fst (stageOutcomes stageProcess (m_processors c)
          (if getBusCount c True > 1 \<and> m_sidechainDisabled c
           then buffer\<lparr>contents := clearSidechain (contents buffer)\<rparr> else buffer))))"

section \<open>Pre-roll\<close>

text \<open>
  \<^verbatim>\<open>preProcessBlocks\<close> is a \<^verbatim>\<open>do ... while\<close> loop whose counter grows by the block
  size; with a block size that is not positive it does not end, so the loop is a
  partial function and \<open>None\<close> is "does not return". Besides the stage and the counter
  the model returns the blocks handed to the stage, in order, as the stage saw them.
  The block is built once, with the larger of the chain's total input and output
  channel counts plus \<^verbatim>\<open>m_extraChannels\<close> channels, and cleared once; \<open>silence\<close> is the
  contents of a cleared block with an empty MIDI buffer.
\<close>

partial_function (option) preProcessLoop ::
  "'b stageProcessBlock \<Rightarrow> int \<Rightarrow> Processor \<Rightarrow> 'b AudioBuffer \<Rightarrow> int \<Rightarrow> 'b AudioBuffer list \<Rightarrow>
   (Processor \<times> int \<times> 'b AudioBuffer list) option" where
  "preProcessLoop stageProcess blockSize proc buf samplesProcessed fed =
     (case stageProcess proc buf of
        (didRun, proc', data) \<Rightarrow>
          if samplesProcessed + blockSize < 16384
          then preProcessLoop stageProcess blockSize proc' (buf\<lparr>contents := data\<rparr>)
                 (samplesProcessed + blockSize) (fed @ [buf])
          else Some (proc', samplesProcessed + blockSize, fed @ [buf]))"

definition preProcessChannels :: "ProcessorChain \<Rightarrow> int" where
  "preProcessChannels c =
     max (getTotalNumInputChannels c) (getTotalNumOutputChannels c) + m_extraChannels c"

definition preProcessBlocks ::
  "'b stageProcessBlock \<Rightarrow> 'b \<Rightarrow> ProcessorChain \<Rightarrow> Processor \<Rightarrow>
   (Processor \<times> int \<times> 'b AudioBuffer list) option" where
  "preProcessBlocks stageProcess silence c proc =
     preProcessLoop stageProcess (ap_blockSize c) proc
       \<lparr>numChannels = preProcessChannels c, numSamples = ap_blockSize c, contents = silence\<rparr>
       0 []"

text \<open>
  For the statement about the pre-roll: the stage's \<^verbatim>\<open>processBlock\<close> called \<open>n\<close>
  times in succession on one block, each call seeing the contents the previous call
  left. The result is the stage after the last call and the blocks as the calls received
  them.
\<close>

fun feedStage ::
  "'b stageProcessBlock \<Rightarrow> nat \<Rightarrow> Processor \<Rightarrow> 'b AudioBuffer \<Rightarrow> Processor \<times> 'b AudioBuffer list" where
  "feedStage stageProcess 0 proc buf = (proc, [])"
| "feedStage stageProcess (Suc n) proc buf =
     (case stageProcess proc buf of
        (didRun, proc', data) \<Rightarrow>
          (case feedStage stageProcess n proc' (buf\<lparr>contents := data\<rparr>) of
             (procN, fed) \<Rightarrow> (procN, buf # fed)))"

section \<open>Example chains\<close>

text \<open>
  Concrete stages and chains at which the statements below are evaluated. The example
  chains are built from the empty chain by the chain's own operations.
\<close>

definition stereoLayout :: BusesLayout where
  "stereoLayout = \<lparr>inputBuses = [Stereo], outputBuses = [Stereo]\<rparr>"

definition exampleStage :: "int \<Rightarrow> real \<Rightarrow> bool \<Rightarrow> Processor" where
  "exampleStage latency tail bypassed =
     \<lparr>chainIndex = -1, loaded = True, suspended = bypassed, latencySamples = latency,
      tailLengthSeconds = tail, doublePrecision = True, extraInChannels = 0,
      extraOutChannels = 0, needsDisabledSidechain = False, supportedBusLayouts = [],
      busesLayout = stereoLayout, layoutName = []\<rparr>"

definition emptyChain :: ProcessorChain where
  "emptyChain =
     \<lparr>m_processors = [], m_extraChannels = 0, m_hasSidechain = False,
      m_sidechainDisabled = False, m_supportsDoublePrecision = True, m_tailSecs = 0,
      ap_busesLayout = stereoLayout, ap_latencySamples = 0, ap_sampleRate = 44100,
      ap_blockSize = 512, ap_setLatencyCalls = []\<rparr>"

definition twoStageChain :: ProcessorChain where
  "twoStageChain =
     addProcessor (addProcessor emptyChain (exampleStage 10 1 False)) (exampleStage 20 2 False)"

definition bypassedTailChain :: ProcessorChain where
  "bypassedTailChain =
     emptyChain\<lparr>m_processors :=
       [exampleStage 0 5 False, exampleStage 0 7 False, exampleStage 0 9 True]\<rparr>"

definition allBypassedChain :: ProcessorChain where
  "allBypassedChain = emptyChain\<lparr>m_processors := [exampleStage 0 3 True]\<rparr>"

definition unitParameter :: "Processor \<Rightarrow> int \<Rightarrow> real" where
  "unitParameter proc paramIdx = 1"

text \<open>
  A stage constructor and a \<^verbatim>\<open>load\<close> that fails and leaves the stage unloaded; a stage
  \<^verbatim>\<open>processBlock\<close> that runs exactly when the stage is not suspended and leaves the
  block alone.
\<close>

definition unloadedStage :: "string \<Rightarrow> real \<Rightarrow> int \<Rightarrow> Processor" where
  "unloadedStage ident sampleRate blockSize = (exampleStage 0 0 False)\<lparr>loaded := False\<rparr>"

definition failingLoad :: stageLoad where
  "failingLoad proc settings layout multiMono monoChannels err =
     (False, ''failed to load plugin'', proc)"

definition activeStageProcess :: "unit stageProcessBlock" where
  "activeStageProcess proc buffer = (\<not> suspended proc, proc, contents buffer)"

text \<open>
  A stage \<^verbatim>\<open>processBlock\<close> that leaves a trace of every call: it raises the stage's
  latency by one and the (numeric) contents of the block by one.
\<close>

definition countingStageProcess :: "nat stageProcessBlock" where
  "countingStageProcess proc buffer =
     (True, proc\<lparr>latencySamples := latencySamples proc + 1\<rparr>, contents buffer + 1)"

definition latencyChain :: ProcessorChain where
  "latencyChain =
     emptyChain\<lparr>m_processors :=
       [exampleStage 10 0 False, exampleStage 20 0 False, exampleStage 40 0 True]\<rparr>"

definition unitBlock :: "unit AudioBuffer" where
  "unitBlock = \<lparr>numChannels = 2, numSamples = 512, contents = ()\<rparr>"

definition largeBlockChain :: ProcessorChain where
  "largeBlockChain = emptyChain\<lparr>ap_blockSize := 8192\<rparr>"

text \<open>
  Example collaborators for the negotiation: channel counts are the sums of the bus
  sizes, the description of the outputs is the names of the output buses, nothing is
  probed, and a stage takes every layout.
\<close>

definition describeChannelSet :: "AudioChannelSet \<Rightarrow> string" where
  "describeChannelSet s =
     (case s of Mono \<Rightarrow> ''Mono'' | Stereo \<Rightarrow> ''Stereo'' | DiscreteChannels n \<Rightarrow> ''Discrete'')"

definition exampleNumChannels :: "BusesLayout \<Rightarrow> bool \<Rightarrow> int" where
  "exampleNumChannels l isInput =
     sum_list (map channelSetSize (if isInput then inputBuses l else outputBuses l))"

definition exampleDescribe :: "BusesLayout \<Rightarrow> string" where
  "exampleDescribe l = concat (map describeChannelSet (outputBuses l))"

definition nothingProbed :: "Processor \<Rightarrow> BusesLayout list" where
  "nothingProbed proc = []"

definition stageTakesLayout :: "Processor \<Rightarrow> BusesLayout \<Rightarrow> bool \<times> Processor" where
  "stageTakesLayout proc l = (True, proc\<lparr>busesLayout := l\<rparr>)"

definition exampleCollaborators :: Collaborators where
  "exampleCollaborators =
     \<lparr>getLayoutNumChannels = exampleNumChannels, describeLayout = exampleDescribe,
      findSupportedLayouts = nothingProbed, stageSetBusesLayout = stageTakesLayout\<rparr>"

definition anyLayoutSupported :: "BusesLayout \<Rightarrow> bool" where
  "anyLayoutSupported l = True"

definition layoutOf :: "AudioChannelSet list \<Rightarrow> AudioChannelSet list \<Rightarrow> BusesLayout" where
  "layoutOf ins outs = \<lparr>inputBuses = ins, outputBuses = outs\<rparr>"

definition stageWithLayouts :: "BusesLayout list \<Rightarrow> Processor" where
  "stageWithLayouts ls = (exampleStage 0 0 False)\<lparr>supportedBusLayouts := ls\<rparr>"

definition instrumentStage :: Processor where
  "instrumentStage = stageWithLayouts [layoutOf [] [Stereo]]"

definition equalCountsStage :: Processor where
  "equalCountsStage = stageWithLayouts
     [layoutOf [Mono] [Stereo], layoutOf [Stereo] [Stereo], layoutOf [Mono] [Mono]]"

definition wideInputStage :: Processor where
  "wideInputStage = stageWithLayouts
     [layoutOf [Mono] [Stereo], layoutOf [Stereo, Stereo] [Stereo],
      layoutOf [DiscreteChannels 4] [Stereo]]"

text \<open>
  In the scan for a named target, a matching candidate is taken at once (and ends the
  scan) when the chain has no input channels or the candidate's two counts agree.
\<close>

definition takenAtOnce :: "Collaborators \<Rightarrow> int \<Rightarrow> BusesLayout \<Rightarrow> bool" where
  "takenAtOnce E chIn l =
     (chIn = 0 \<or> getLayoutNumChannels E l True = getLayoutNumChannels E l False)"

text \<open>The index invariant: every stage's stored chain index is its position.\<close>

definition indicesInSync :: "ProcessorChain \<Rightarrow> bool" where
  "indicesInSync c = (map chainIndex (m_processors c) = map int [0..<length (m_processors c)])"

section \<open>Properties of the aggregate recomputation\<close>

lemma updateNoLock_processors: "m_processors (updateNoLock c) = m_processors c"
  by (simp add: updateNoLock_def setLatencySamples_def Let_def split: prod.splits list.splits)

lemma tail_after_updateNoLock:
  "m_tailSecs (updateNoLock c) =
     (case skipSuspended (rev (m_processors c)) of [] \<Rightarrow> 0 | p # rest \<Rightarrow> tailLengthSeconds p)"
  by (simp add: updateNoLock_def setLatencySamples_def Let_def split: prod.splits list.splits)

lemma skipSuspended_all: "\<forall>p \<in> set ps. suspended p \<Longrightarrow> skipSuspended ps = []"
  by (induction ps) auto

lemma skipSuspended_append:
  "\<forall>p \<in> set ps. suspended p \<Longrightarrow> \<not> suspended q \<Longrightarrow> skipSuspended (ps @ q # qs) = q # qs"
  by (induction ps) auto

lemmas example_defs = twoStageChain_def emptyChain_def exampleStage_def stereoLayout_def
  addProcessor_def delProcessor_def exchangeProcessors_def updateNoLock_def updateStep_def
  setLatencySamples_def jmax3_def getTailLengthSeconds_def Let_def

lemma twoStageChain_indices: "map chainIndex (m_processors twoStageChain) = [0, 1]"
  by (simp add: example_defs)

text \<open>
  Claim C5. After \<^verbatim>\<open>updateNoLock\<close> the recorded tail length is 0 when every stage is
  suspended (in particular when the chain is empty), and otherwise it is the tail length
  of the stage at the last position \<open>i\<close> whose stage is not suspended.
\<close>

theorem updateNoLock_tail:
  "((\<forall>p \<in> set (m_processors c). suspended p) \<longrightarrow> getTailLengthSeconds (updateNoLock c) = 0) \<and>
   (i < length (m_processors c) \<and> \<not> suspended (m_processors c ! i) \<and>
    (\<forall>j. i < j \<and> j < length (m_processors c) \<longrightarrow> suspended (m_processors c ! j)) \<longrightarrow>
      getTailLengthSeconds (updateNoLock c) = tailLengthSeconds (m_processors c ! i))"
proof (intro conjI impI)
  assume "\<forall>p \<in> set (m_processors c). suspended p"
  then have "skipSuspended (rev (m_processors c)) = []"
    by (simp add: skipSuspended_all)
  then show "getTailLengthSeconds (updateNoLock c) = 0"
    by (simp add: getTailLengthSeconds_def tail_after_updateNoLock)
next
  let ?ps = "m_processors c"
  assume a: "i < length ?ps \<and> \<not> suspended (?ps ! i) \<and>
    (\<forall>j. i < j \<and> j < length ?ps \<longrightarrow> suspended (?ps ! j))"
  then have split: "?ps = take i ?ps @ ?ps ! i # drop (Suc i) ?ps"
    by (simp add: id_take_nth_drop)
  have later: "\<forall>p \<in> set (rev (drop (Suc i) ?ps)). suspended p"
    using a by (auto simp: in_set_conv_nth)
  have "rev ?ps = rev (drop (Suc i) ?ps) @ ?ps ! i # rev (take i ?ps)"
    by (subst split) simp
  then have "skipSuspended (rev ?ps) = ?ps ! i # rev (take i ?ps)"
    using skipSuspended_append [OF later, of "?ps ! i"] a by simp
  then show "getTailLengthSeconds (updateNoLock c) = tailLengthSeconds (?ps ! i)"
    by (simp add: getTailLengthSeconds_def tail_after_updateNoLock)
qed

text \<open>
  The statement at a chain whose only stage is suspended, and at a chain of three stages
  whose last stage is suspended: the tail is the middle stage's.
\<close>

theorem updateNoLock_tail_witness:
  "getTailLengthSeconds (updateNoLock allBypassedChain) = 0 \<and>
   getTailLengthSeconds (updateNoLock bypassedTailChain) = 7"
proof -
  have ps: "m_processors bypassedTailChain =
      [exampleStage 0 5 False, exampleStage 0 7 False, exampleStage 0 9 True]"
    by (simp add: bypassedTailChain_def emptyChain_def)
  have later: "\<forall>j. 1 < j \<and> j < length (m_processors bypassedTailChain) \<longrightarrow>
      suspended (m_processors bypassedTailChain ! j)"
  proof (intro allI impI)
    fix j :: nat
    assume "1 < j \<and> j < length (m_processors bypassedTailChain)"
    then have "j = 2" by (simp add: ps)
    then show "suspended (m_processors bypassedTailChain ! j)"
      by (simp add: ps exampleStage_def)
  qed
  have all: "\<forall>p \<in> set (m_processors allBypassedChain). suspended p"
    by (simp add: allBypassedChain_def emptyChain_def exampleStage_def)
  show ?thesis
    using updateNoLock_tail [of allBypassedChain 0] updateNoLock_tail [of bypassedTailChain 1]
      all later
    by (simp add: ps exampleStage_def)
qed

section \<open>Properties of the mutations\<close>

lemma indicesInSync_nth:
  "indicesInSync c \<longleftrightarrow> (\<forall>i < length (m_processors c). chainIndex (m_processors c ! i) = int i)"
  unfolding indicesInSync_def list_eq_iff_nth_eq by simp

text \<open>Appending and exchanging keep the index invariant.\<close>

lemma addProcessor_indicesInSync: "indicesInSync c \<Longrightarrow> indicesInSync (addProcessor c processor)"
  by (simp add: indicesInSync_def addProcessor_def updateNoLock_processors)

lemma exchangeProcessors_indicesInSync:
  "indicesInSync c \<Longrightarrow> indicesInSync (exchangeProcessors c idxA idxB)"
  by (auto simp: indicesInSync_nth exchangeProcessors_def Let_def nth_list_update)

text \<open>
  Exchanging with an index out of range changes nothing, and exchanging never touches
  the recorded latency, its reports or the recorded tail.
\<close>

lemma exchangeProcessors_invalid:
  "idxA < 0 \<or> int (length (m_processors c)) \<le> idxA \<or>
   idxB < 0 \<or> int (length (m_processors c)) \<le> idxB \<Longrightarrow>
     exchangeProcessors c idxA idxB = c"
  by (auto simp: exchangeProcessors_def Let_def)

lemma exchangeProcessors_aggregates:
  "ap_latencySamples (exchangeProcessors c idxA idxB) = ap_latencySamples c \<and>
   ap_setLatencyCalls (exchangeProcessors c idxA idxB) = ap_setLatencyCalls c \<and>
   m_tailSecs (exchangeProcessors c idxA idxB) = m_tailSecs c"
  by (simp add: exchangeProcessors_def Let_def)

text \<open>
  Claim C1. Removing a stage does not keep the invariant: \<^verbatim>\<open>delProcessor\<close> erases the
  element and assigns no index. In the chain built by adding two stages the indices are
  0 and 1; after \<^verbatim>\<open>delProcessor(0)\<close> the one remaining stage is at position 0 and
  still stores index 1.
\<close>

theorem delProcessor_leaves_stale_index:
  "indicesInSync twoStageChain \<and>
   map chainIndex (m_processors (delProcessor twoStageChain 0)) = [1] \<and>
   \<not> indicesInSync (delProcessor twoStageChain 0)"
  by (simp add: example_defs indicesInSync_def)

text \<open>
  Claim C4. \<^verbatim>\<open>exchangeProcessors\<close> does not recompute the tail. In the chain of two
  active stages with tails 1 and 2 the recorded tail is 2; after exchanging them the last
  active stage is the one with tail 1, the recorded tail is still 2, and a recomputation
  at that point would record 1.
\<close>

theorem exchangeProcessors_leaves_stale_tail:
  "getTailLengthSeconds twoStageChain = 2 \<and>
   map suspended (m_processors (exchangeProcessors twoStageChain 0 1)) = [False, False] \<and>
   map tailLengthSeconds (m_processors (exchangeProcessors twoStageChain 0 1)) = [2, 1] \<and>
   getTailLengthSeconds (exchangeProcessors twoStageChain 0 1) = 2 \<and>
   getTailLengthSeconds (updateNoLock (exchangeProcessors twoStageChain 0 1)) = 1"
  by (simp add: example_defs)

section \<open>Properties of the queries\<close>

text \<open>
  Claim C10. For an index that is negative or not less than the number of stages,
  \<^verbatim>\<open>getParameterValue\<close> returns 0 and \<^verbatim>\<open>getProcessor\<close> returns the null handle, and
  both leave the chain as it was.
\<close>

theorem invalid_index_queries:
  "idx < 0 \<or> int (length (m_processors c)) \<le> idx \<Longrightarrow>
     getParameterValue stageParameterValue c idx paramIdx = (0, c) \<and>
     getProcessor c idx = (None, c)"
  by (auto simp: getParameterValue_def getProcessor_def)

text \<open>The statement at the two-stage chain, one past the end and at \<open>-1\<close>.\<close>

theorem invalid_index_queries_witness:
  "getParameterValue unitParameter twoStageChain 2 0 = (0, twoStageChain) \<and>
   getProcessor twoStageChain 2 = (None, twoStageChain) \<and>
   getParameterValue unitParameter twoStageChain (-1) 0 = (0, twoStageChain) \<and>
   getProcessor twoStageChain (-1) = (None, twoStageChain)"
  using invalid_index_queries [of 2 twoStageChain unitParameter 0]
    invalid_index_queries [of "-1" twoStageChain unitParameter 0]
    length_map [of chainIndex "m_processors twoStageChain"]
  by (simp add: twoStageChain_indices)

section \<open>Properties of adding a plugin stage\<close>

text \<open>
  Claim C9. With the multi-mono flag set, \<^verbatim>\<open>addPluginProcessor\<close> returns failure with
  the error text "Multi-Mono layout not yet implemented"; the chain is returned as it
  was, whatever constructing or loading a stage would have done.
\<close>

theorem addPluginProcessor_multiMono:
  "addPluginProcessor newProcessor load c ident settings layout True monoChannels err =
     (False, ''Multi-Mono layout not yet implemented'', c)"
  by (simp add: addPluginProcessor_def)

section \<open>Properties of the nominal layout\<close>

text \<open>
  Claim C3. The sidechain bus of more than two channels is built from the main input
  count: for 2 inputs, 2 outputs and a sidechain of 3 the second input bus is the
  discrete set of 2 channels, not of 3.
\<close>

theorem updateChannels_sidechain_bus:
  "updateChannelsLayout 2 2 3 =
     \<lparr>inputBuses = [Stereo, DiscreteChannels 2], outputBuses = [Stereo]\<rparr> \<and>
   ap_busesLayout (snd (updateChannels anyLayoutSupported exampleCollaborators emptyChain 2 2 3)) =
     \<lparr>inputBuses = [Stereo, DiscreteChannels 2], outputBuses = [Stereo]\<rparr>"
  by (simp add: updateChannelsLayout_def updateChannels_def anyLayoutSupported_def
      emptyChain_def Let_def)

section \<open>Adding a stage whose loading fails\<close>

text \<open>
  Claim C2, as the code has it. \<^verbatim>\<open>addPluginProcessor\<close> appends the stage whatever
  \<^verbatim>\<open>load\<close> returned: with a \<^verbatim>\<open>load\<close> that fails on the empty chain, the call returns
  failure and the chain then holds one stage, which is not loaded.
\<close>

theorem addPluginProcessor_appends_failed_stage:
  "fst (addPluginProcessor unloadedStage failingLoad emptyChain ''id'' [] [] False 0 []) = False \<and>
   m_processors emptyChain = [] \<and>
   map loaded (m_processors (snd (snd
     (addPluginProcessor unloadedStage failingLoad emptyChain ''id'' [] [] False 0 [])))) = [False]"
  by (simp add: addPluginProcessor_def failingLoad_def unloadedStage_def example_defs)

text \<open>
  Claim C2, amended. When the multi-mono flag is unset and \<^verbatim>\<open>load\<close> returns failure,
  \<^verbatim>\<open>addPluginProcessor\<close> returns failure with the error text of \<^verbatim>\<open>load\<close>, and the
  stage list is the previous list followed by the stage as \<^verbatim>\<open>load\<close> left it, with the
  previous size as its chain index.
\<close>

theorem addPluginProcessor_load_failure:
  assumes "load (newProcessor ident (ap_sampleRate c) (ap_blockSize c)) settings layout False
             monoChannels err = (False, err', proc')"
  shows "addPluginProcessor newProcessor load c ident settings layout False monoChannels err =
           (False, err', addProcessor c proc') \<and>
         m_processors (addProcessor c proc') =
           m_processors c @ [proc'\<lparr>chainIndex := int (length (m_processors c))\<rparr>]"
  using assms by (simp add: addPluginProcessor_def addProcessor_def updateNoLock_processors)

text \<open>The statement at the two-stage chain: the failed stage becomes the third.\<close>

theorem addPluginProcessor_load_failure_witness:
  "addPluginProcessor unloadedStage failingLoad twoStageChain ''id'' [] [] False 0 [] =
     (False, ''failed to load plugin'', addProcessor twoStageChain (unloadedStage ''id'' 44100 512)) \<and>
   map chainIndex (m_processors (addProcessor twoStageChain (unloadedStage ''id'' 44100 512))) =
     [0, 1, 2]"
  using addPluginProcessor_load_failure [of failingLoad unloadedStage "''id''" twoStageChain
      "[]" "[]" 0 "[]" "''failed to load plugin''" "unloadedStage ''id'' 44100 512"]
  by (simp add: failingLoad_def unloadedStage_def example_defs)

section \<open>Properties of block processing\<close>

lemma processStages_latency:
  "processStages sp procs buffer latency = (procs', buffer', latency') \<Longrightarrow>
     latency' = latency + sum_list (map (\<lambda>outcome. latencySamples (snd outcome))
       (filter fst (stageOutcomes sp procs buffer)))"
proof (induction procs arbitrary: buffer latency procs' buffer' latency')
  case Nil
  then show ?case by simp
next
  case (Cons proc procs)
  obtain didRun proc1 data where sp: "sp proc buffer = (didRun, proc1, data)"
    by (cases "sp proc buffer") auto
  obtain ps b l where rest: "processStages sp procs (buffer\<lparr>contents := data\<rparr>)
      (if didRun then latency + latencySamples proc1 else latency) = (ps, b, l)"
    by (cases "processStages sp procs (buffer\<lparr>contents := data\<rparr>)
      (if didRun then latency + latencySamples proc1 else latency)") auto
  from Cons.prems sp rest have "latency' = l" by simp
  with Cons.IH [OF rest] sp show ?case by simp
qed

text \<open>
  Claim C6. After \<^verbatim>\<open>processBlockInternal\<close> the recorded latency is the sum of the
  latencies of the stages whose \<^verbatim>\<open>processBlock\<close> returned true in this block (each read
  after the stage's call). \<^verbatim>\<open>setLatencySamples\<close> is called once, with that sum, when
  the sum differs from the latency recorded before the block, and not at all when it is
  the same.
\<close>

theorem processBlockInternal_latency:
  "ap_latencySamples (fst (processBlockInternal sp clearSidechain c buffer)) =
     blockLatencyTotal sp clearSidechain c buffer \<and>
   (blockLatencyTotal sp clearSidechain c buffer \<noteq> ap_latencySamples c \<longrightarrow>
      ap_setLatencyCalls (fst (processBlockInternal sp clearSidechain c buffer)) =
        ap_setLatencyCalls c @ [blockLatencyTotal sp clearSidechain c buffer]) \<and>
   (blockLatencyTotal sp clearSidechain c buffer = ap_latencySamples c \<longrightarrow>
      ap_setLatencyCalls (fst (processBlockInternal sp clearSidechain c buffer)) =
        ap_setLatencyCalls c)"
proof -
  let ?b0 = "if getBusCount c True > 1 \<and> m_sidechainDisabled c
             then buffer\<lparr>contents := clearSidechain (contents buffer)\<rparr> else buffer"
  obtain procs buffer1 latency where
    r: "processStages sp (m_processors c) ?b0 0 = (procs, buffer1, latency)"
    by (cases "processStages sp (m_processors c) ?b0 0") auto
  have "latency = blockLatencyTotal sp clearSidechain c buffer"
    using processStages_latency [OF r] by (simp add: blockLatencyTotal_def)
  then show ?thesis
    using r by (simp add: processBlockInternal_def setLatencySamples_def Let_def)
qed

text \<open>
  The statement at a chain of stages with latencies 10, 20 and 40, the last suspended,
  and recorded latency 0: the first block reports 30, the second block reports nothing.
\<close>

theorem processBlockInternal_latency_witness:
  "ap_setLatencyCalls (fst (processBlockInternal activeStageProcess id latencyChain unitBlock)) = [30] \<and>
   ap_setLatencyCalls (fst (processBlockInternal activeStageProcess id
     (fst (processBlockInternal activeStageProcess id latencyChain unitBlock)) unitBlock)) = [30]"
  using processBlockInternal_latency [of activeStageProcess id latencyChain unitBlock]
    processBlockInternal_latency [of activeStageProcess id
      "fst (processBlockInternal activeStageProcess id latencyChain unitBlock)" unitBlock]
  by (simp add: blockLatencyTotal_def processBlockInternal_def activeStageProcess_def
      latencyChain_def unitBlock_def getBusCount_def setLatencySamples_def example_defs)

section \<open>Properties of the pre-roll\<close>

text \<open>Calling the stage \<open>n\<close> times hands it \<open>n\<close> blocks of the dimensions of the first.\<close>

lemma feedStage_Suc:
  "sp proc buf = (didRun, proc1, data) \<Longrightarrow>
   feedStage sp (Suc n) proc buf =
     (fst (feedStage sp n proc1 (buf\<lparr>contents := data\<rparr>)),
      buf # snd (feedStage sp n proc1 (buf\<lparr>contents := data\<rparr>)))"
  by (simp split: prod.splits)

lemma feedStage_length: "length (snd (feedStage sp n proc buf)) = n"
proof (induction n arbitrary: proc buf)
  case 0
  then show ?case by simp
next
  case (Suc n)
  obtain didRun proc1 data where sp: "sp proc buf = (didRun, proc1, data)"
    by (cases "sp proc buf") auto
  show ?case
    by (simp only: feedStage_Suc [of sp proc buf didRun proc1 data, OF sp] snd_conv) (simp add: Suc)
qed

lemma feedStage_dims:
  "\<forall>b \<in> set (snd (feedStage sp n proc buf)).
     numChannels b = numChannels buf \<and> numSamples b = numSamples buf"
proof (induction n arbitrary: proc buf)
  case 0
  then show ?case by simp
next
  case (Suc n)
  obtain didRun proc1 data where sp: "sp proc buf = (didRun, proc1, data)"
    by (cases "sp proc buf") auto
  from Suc [of proc1 "buf\<lparr>contents := data\<rparr>"] show ?case
    by (simp only: feedStage_Suc [of sp proc buf didRun proc1 data, OF sp] snd_conv) simp
qed

lemma feedStage_first: "0 < n \<Longrightarrow> hd (snd (feedStage sp n proc buf)) = buf"
  by (cases n) (auto split: prod.splits)

text \<open>
  The loop returns whenever the block size is positive, from any counter value: the
  distance of the counter to 16384 shrinks with every block. What it returns is the
  stage after \<open>k\<close> successive calls of its \<^verbatim>\<open>processBlock\<close>, for the first \<open>k\<close> at
  which the counter reaches 16384.
\<close>

lemma preProcessLoop_feeds:
  assumes "0 < blockSize"
  shows "\<exists>k. 1 \<le> k \<and>
          preProcessLoop sp blockSize proc buf s fed =
            Some (fst (feedStage sp k proc buf), s + int k * blockSize,
                  fed @ snd (feedStage sp k proc buf)) \<and>
          16384 \<le> s + int k * blockSize \<and>
          (k = 1 \<or> s + (int k - 1) * blockSize < 16384)"
proof (induction "nat (16384 - s)" arbitrary: s proc buf fed rule: less_induct)
  case less
  obtain didRun proc1 data where sp: "sp proc buf = (didRun, proc1, data)"
    by (cases "sp proc buf") auto
  let ?buf = "buf\<lparr>contents := data\<rparr>"
  have one: "feedStage sp (Suc 0) proc buf = (proc1, [buf])"
    by (simp add: sp)
  show ?case
  proof (cases "s + blockSize < 16384")
    case False
    then have "preProcessLoop sp blockSize proc buf s fed = Some (proc1, s + blockSize, fed @ [buf])"
      by (subst preProcessLoop.simps) (simp add: sp)
    then show ?thesis using False one
      by (intro exI [of _ "Suc 0"]) simp
  next
    case True
    have step: "preProcessLoop sp blockSize proc buf s fed =
        preProcessLoop sp blockSize proc1 ?buf (s + blockSize) (fed @ [buf])"
      by (subst preProcessLoop.simps) (simp add: sp True)
    have "nat (16384 - (s + blockSize)) < nat (16384 - s)"
      using assms True by simp
    from less [OF this, of proc1 ?buf "fed @ [buf]"]
    obtain k where k: "1 \<le> k"
      and r: "preProcessLoop sp blockSize proc1 ?buf (s + blockSize) (fed @ [buf]) =
            Some (fst (feedStage sp k proc1 ?buf), s + blockSize + int k * blockSize,
                  (fed @ [buf]) @ snd (feedStage sp k proc1 ?buf))"
      and ge: "16384 \<le> s + blockSize + int k * blockSize"
      and mn: "k = 1 \<or> s + blockSize + (int k - 1) * blockSize < 16384"
      by blast
    have suc: "feedStage sp (Suc k) proc buf =
        (fst (feedStage sp k proc1 ?buf), buf # snd (feedStage sp k proc1 ?buf))"
      by (rule feedStage_Suc [of sp proc buf didRun proc1 data, OF sp])
    have mn': "s + (int (Suc k) - 1) * blockSize < 16384"
    proof -
      from mn show ?thesis
      proof
        assume "k = 1" then show ?thesis using True by simp
      next
        assume "s + blockSize + (int k - 1) * blockSize < 16384"
        then show ?thesis by (simp add: algebra_simps)
      qed
    qed
    have "preProcessLoop sp blockSize proc buf s fed =
        Some (fst (feedStage sp (Suc k) proc buf), s + int (Suc k) * blockSize,
              fed @ snd (feedStage sp (Suc k) proc buf))"
      using step r by (simp only: suc fst_conv snd_conv) (simp add: algebra_simps)
    moreover have "16384 \<le> s + int (Suc k) * blockSize"
      using ge by (simp add: algebra_simps)
    ultimately show ?thesis using mn'
      by (intro exI [of _ "Suc k"]) simp
  qed
qed

text \<open>
  The counter of the loop stays in the range of a 32-bit \<^verbatim>\<open>int\<close> for every positive
  block size in that range: when the loop stops after \<open>k\<close> blocks, and not before, the
  counter is at most the larger of the block size and 32767.
\<close>

lemma preProcess_counter_bound:
  assumes "0 < blockSize" "(int k - 1) * blockSize < 16384" "1 \<le> k"
  shows "int k * blockSize \<le> max blockSize 32767"
proof (cases "k = 1")
  case True
  then show ?thesis by simp
next
  case False
  with assms have "2 \<le> k" by simp
  then have "1 * blockSize \<le> (int k - 1) * blockSize"
    using assms(1) by (intro mult_right_mono) auto
  then have "blockSize < 16384" using assms(2) by simp
  moreover have "int k * blockSize = (int k - 1) * blockSize + blockSize"
    by (simp add: algebra_simps)
  ultimately show ?thesis using assms(2) by simp
qed

text \<open>
  Claim C8. With a positive block size \<^verbatim>\<open>preProcessBlocks\<close> returns. The stage it
  returns is the given stage after its \<^verbatim>\<open>processBlock\<close> has been called once for every
  block, in succession, starting from the silent block, and the blocks are those the
  calls received. There is at least one block and the first is silent; the number of
  samples pushed through the stage is the number of blocks times the block size and is
  at least 16384, which it was not one block earlier; every block has the chain's block
  size and the larger of the chain's total input and output channel counts plus the
  extra channels.
\<close>

theorem preProcessBlocks_returns:
  assumes "0 < ap_blockSize c"
  shows "\<exists>proc' fed. preProcessBlocks sp silence c proc =
            Some (proc', int (length fed) * ap_blockSize c, fed) \<and>
          feedStage sp (length fed) proc
            \<lparr>numChannels = max (getTotalNumInputChannels c) (getTotalNumOutputChannels c)
                 + m_extraChannels c,
              numSamples = ap_blockSize c, contents = silence\<rparr> = (proc', fed) \<and>
          fed \<noteq> [] \<and>
          hd fed = \<lparr>numChannels = max (getTotalNumInputChannels c) (getTotalNumOutputChannels c)
                       + m_extraChannels c,
                    numSamples = ap_blockSize c, contents = silence\<rparr> \<and>
          16384 \<le> int (length fed) * ap_blockSize c \<and>
          (int (length fed) - 1) * ap_blockSize c < 16384 \<and>
          (\<forall>b \<in> set fed. numChannels b = max (getTotalNumInputChannels c)
                             (getTotalNumOutputChannels c) + m_extraChannels c \<and>
                          numSamples b = ap_blockSize c)"
proof -
  let ?buf = "\<lparr>numChannels = max (getTotalNumInputChannels c) (getTotalNumOutputChannels c)
                 + m_extraChannels c,
               numSamples = ap_blockSize c, contents = silence\<rparr>"
  from preProcessLoop_feeds [OF assms, of sp proc ?buf 0 "[]"]
  obtain k where k: "1 \<le> k"
    and r: "preProcessLoop sp (ap_blockSize c) proc ?buf 0 [] =
              Some (fst (feedStage sp k proc ?buf), int k * ap_blockSize c,
                    snd (feedStage sp k proc ?buf))"
    and ge: "16384 \<le> int k * ap_blockSize c"
    and mn: "k = 1 \<or> (int k - 1) * ap_blockSize c < 16384"
    by auto
  let ?proc = "fst (feedStage sp k proc ?buf)" and ?fed = "snd (feedStage sp k proc ?buf)"
  have len: "length ?fed = k" by (rule feedStage_length)
  have run: "preProcessBlocks sp silence c proc = Some (?proc, int (length ?fed) * ap_blockSize c, ?fed)"
    using r by (simp add: len preProcessBlocks_def preProcessChannels_def)
  have feed: "feedStage sp (length ?fed) proc ?buf = (?proc, ?fed)"
    by (simp add: len)
  have ne: "?fed \<noteq> []" using len k by auto
  have first: "hd ?fed = ?buf" using k by (simp add: feedStage_first)
  have ge': "16384 \<le> int (length ?fed) * ap_blockSize c" using ge by (simp add: len)
  have mn': "(int (length ?fed) - 1) * ap_blockSize c < 16384" using mn by (auto simp: len)
  have dims: "\<forall>b \<in> set ?fed. numChannels b = max (getTotalNumInputChannels c)
                  (getTotalNumOutputChannels c) + m_extraChannels c \<and>
                numSamples b = ap_blockSize c"
    using feedStage_dims [of sp k proc ?buf] by simp
  from run feed ne first ge' mn' dims show ?thesis by blast
qed

text \<open>
  The statement at a chain with block size 8192 and a stage that counts its calls: two
  blocks, 16384 samples, the stage called twice and the second block as the first call
  left it.
\<close>

theorem preProcessBlocks_returns_witness:
  "preProcessBlocks countingStageProcess 0 largeBlockChain (exampleStage 0 0 False) =
     Some (exampleStage 2 0 False, 16384,
       [\<lparr>numChannels = 2, numSamples = 8192, contents = 0\<rparr>,
        \<lparr>numChannels = 2, numSamples = 8192, contents = 1\<rparr>]) \<and>
   feedStage countingStageProcess 2 (exampleStage 0 0 False)
       \<lparr>numChannels = 2, numSamples = 8192, contents = 0\<rparr> =
     (exampleStage 2 0 False,
       [\<lparr>numChannels = 2, numSamples = 8192, contents = 0\<rparr>,
        \<lparr>numChannels = 2, numSamples = 8192, contents = 1\<rparr>])"
  using preProcessBlocks_returns [of largeBlockChain countingStageProcess 0 "exampleStage 0 0 False"]
  by (simp add: preProcessBlocks_def preProcessChannels_def largeBlockChain_def
      getTotalNumInputChannels_def getTotalNumOutputChannels_def channelSetSize_def
      countingStageProcess_def emptyChain_def stereoLayout_def exampleStage_def
      preProcessLoop.simps numeral_2_eq_2)

section \<open>Properties of the layout negotiation\<close>

text \<open>The scan passes over the layouts whose description is not the target name.\<close>

lemma namedScan_filter:
  "namedScan E tgt chIn ls t = namedScan E tgt chIn (filter (\<lambda>l. describeLayout E l = tgt) ls) t"
  by (induction ls arbitrary: t) (simp_all add: Let_def)

lemma namedScan_at_once:
  assumes "\<forall>l \<in> set pre. describeLayout E l = tgt \<and> \<not> takenAtOnce E chIn l"
    and "describeLayout E l = tgt" and "takenAtOnce E chIn l"
  shows "namedScan E tgt chIn (pre @ l # post) t = take_layout E l"
  using assms by (induction pre arbitrary: t) (auto simp: Let_def takenAtOnce_def)

text \<open>
  Without a candidate that is taken at once the scan keeps a running maximum of the
  input count, which starts from the count of the target it is given.
\<close>

lemma namedScan_largest:
  assumes "\<forall>l \<in> set ms. describeLayout E l = tgt \<and> \<not> takenAtOnce E chIn l"
  shows "((\<forall>l \<in> set ms. getLayoutNumChannels E l True \<le> targetChIn t) \<longrightarrow>
            namedScan E tgt chIn ms t = t) \<and>
         ((\<exists>l \<in> set ms. targetChIn t < getLayoutNumChannels E l True) \<longrightarrow>
            (\<exists>pre l post. ms = pre @ l # post \<and>
               (\<forall>x \<in> set pre. getLayoutNumChannels E x True < getLayoutNumChannels E l True) \<and>
               (\<forall>x \<in> set post. getLayoutNumChannels E x True \<le> getLayoutNumChannels E l True) \<and>
               targetChIn t < getLayoutNumChannels E l True \<and>
               namedScan E tgt chIn ms t = take_layout E l))"
  using assms
proof (induction ms arbitrary: t)
  case Nil
  then show ?case by simp
next
  case (Cons m ms)
  let ?n = "\<lambda>l. getLayoutNumChannels E l True"
  have m: "describeLayout E m = tgt" "chIn \<noteq> 0" "?n m \<noteq> getLayoutNumChannels E m False"
    using Cons.prems by (auto simp: takenAtOnce_def)
  have rest: "\<forall>l \<in> set ms. describeLayout E l = tgt \<and> \<not> takenAtOnce E chIn l"
    using Cons.prems by simp
  show ?case
  proof (cases "targetChIn t < ?n m")
    case True
    have step: "namedScan E tgt chIn (m # ms) t = namedScan E tgt chIn ms (take_layout E m)"
      using m True by (simp add: Let_def)
    have tk: "targetChIn (take_layout E m) = ?n m" by (simp add: take_layout_def)
    note IH = Cons.IH [OF rest, of "take_layout E m", unfolded tk]
    show ?thesis
    proof (cases "\<exists>l \<in> set ms. ?n m < ?n l")
      case False
      then have le: "\<forall>l \<in> set ms. ?n l \<le> ?n m" by auto
      with IH have "namedScan E tgt chIn ms (take_layout E m) = take_layout E m" by blast
      with step le True have "m # ms = [] @ m # ms \<and>
          (\<forall>x \<in> set []. ?n x < ?n m) \<and> (\<forall>x \<in> set ms. ?n x \<le> ?n m) \<and>
          targetChIn t < ?n m \<and> namedScan E tgt chIn (m # ms) t = take_layout E m"
        by simp
      then have "\<exists>pre l post. m # ms = pre @ l # post \<and>
          (\<forall>x \<in> set pre. ?n x < ?n l) \<and> (\<forall>x \<in> set post. ?n x \<le> ?n l) \<and>
          targetChIn t < ?n l \<and> namedScan E tgt chIn (m # ms) t = take_layout E l"
        by blast
      with True show ?thesis by auto
    next
      case ex: True
      with IH obtain pre l post where
        d: "ms = pre @ l # post" "\<forall>x \<in> set pre. ?n x < ?n l" "\<forall>x \<in> set post. ?n x \<le> ?n l"
          "?n m < ?n l" "namedScan E tgt chIn ms (take_layout E m) = take_layout E l"
        by blast
      with step True have "m # ms = (m # pre) @ l # post \<and>
          (\<forall>x \<in> set (m # pre). ?n x < ?n l) \<and> (\<forall>x \<in> set post. ?n x \<le> ?n l) \<and>
          targetChIn t < ?n l \<and> namedScan E tgt chIn (m # ms) t = take_layout E l"
        by simp
      then have "\<exists>pre l post. m # ms = pre @ l # post \<and>
          (\<forall>x \<in> set pre. ?n x < ?n l) \<and> (\<forall>x \<in> set post. ?n x \<le> ?n l) \<and>
          targetChIn t < ?n l \<and> namedScan E tgt chIn (m # ms) t = take_layout E l"
        by blast
      with True show ?thesis by auto
    qed
  next
    case False
    have step: "namedScan E tgt chIn (m # ms) t = namedScan E tgt chIn ms t"
      using m False by (simp add: Let_def)
    note IH = Cons.IH [OF rest, of t]
    show ?thesis
    proof (cases "\<exists>l \<in> set ms. targetChIn t < ?n l")
      case nex: False
      then have "\<forall>l \<in> set ms. ?n l \<le> targetChIn t" by auto
      with IH have "namedScan E tgt chIn ms t = t" by blast
      with step nex False show ?thesis by auto
    next
      case ex: True
      with IH obtain pre l post where
        d: "ms = pre @ l # post" "\<forall>x \<in> set pre. ?n x < ?n l" "\<forall>x \<in> set post. ?n x \<le> ?n l"
          "targetChIn t < ?n l" "namedScan E tgt chIn ms t = take_layout E l"
        by blast
      with step False have "m # ms = (m # pre) @ l # post \<and>
          (\<forall>x \<in> set (m # pre). ?n x < ?n l) \<and> (\<forall>x \<in> set post. ?n x \<le> ?n l) \<and>
          targetChIn t < ?n l \<and> namedScan E tgt chIn (m # ms) t = take_layout E l"
        by simp
      then have "\<exists>pre l post. m # ms = pre @ l # post \<and>
          (\<forall>x \<in> set pre. ?n x < ?n l) \<and> (\<forall>x \<in> set post. ?n x \<le> ?n l) \<and>
          targetChIn t < ?n l \<and> namedScan E tgt chIn (m # ms) t = take_layout E l"
        by blast
      with ex show ?thesis by auto
    qed
  qed
qed

lemma negotiate_named:
  "targetOutputLayout \<noteq> [] \<Longrightarrow> targetOutputLayout \<noteq> ''Default'' \<Longrightarrow>
   fst (negotiate E c proc targetOutputLayout) =
     namedScan E targetOutputLayout (getLayoutNumChannels E (ap_busesLayout c) True)
       (filter (\<lambda>l. describeLayout E l = targetOutputLayout)
          (if supportedBusLayouts proc = [] then findSupportedLayouts E proc
           else supportedBusLayouts proc)) noTarget"
  by (simp add: negotiate_def Let_def namedScan_filter [symmetric])

lemma setProcessorBusesLayout_found:
  "loaded proc \<Longrightarrow>
   fst (setProcessorBusesLayout E c proc targetOutputLayout) =
     found (fst (negotiate E c proc targetOutputLayout))"
  by (simp add: setProcessorBusesLayout_def Let_def split: prod.splits)

text \<open>
  Claim C7, amended. For a loaded stage and a target name that is neither empty nor
  "Default", let \<open>ms\<close> be the stage's layouts whose output description is the name, in
  order. The call reports success exactly when a layout was selected. If some layout of
  \<open>ms\<close> is taken at once, the first such is selected. If none is and some layout of
  \<open>ms\<close> has a positive input count, the first layout of \<open>ms\<close> with the largest input
  count is selected. If none is taken at once and none has a positive input count,
  nothing is selected.
\<close>

theorem named_target_negotiation:
  fixes E :: Collaborators and c :: ProcessorChain and proc :: Processor
  defines "chIn \<equiv> getLayoutNumChannels E (ap_busesLayout c) True"
  defines "procLayouts \<equiv> (if supportedBusLayouts proc = [] then findSupportedLayouts E proc
                           else supportedBusLayouts proc)"
  defines "numIn \<equiv> (\<lambda>l. getLayoutNumChannels E l True)"
  assumes named: "targetOutputLayout \<noteq> []" "targetOutputLayout \<noteq> ''Default''"
    and ld: "loaded proc"
    and ms: "ms = filter (\<lambda>l. describeLayout E l = targetOutputLayout) procLayouts"
    and t: "t = fst (negotiate E c proc targetOutputLayout)"
  shows "fst (setProcessorBusesLayout E c proc targetOutputLayout) = found t \<and>
    ((\<exists>l \<in> set ms. takenAtOnce E chIn l) \<longrightarrow>
       (\<exists>pre l post. ms = pre @ l # post \<and> (\<forall>x \<in> set pre. \<not> takenAtOnce E chIn x) \<and>
          takenAtOnce E chIn l \<and> t = take_layout E l)) \<and>
    ((\<forall>l \<in> set ms. \<not> takenAtOnce E chIn l) \<and> (\<exists>l \<in> set ms. 0 < numIn l) \<longrightarrow>
       (\<exists>pre l post. ms = pre @ l # post \<and> (\<forall>x \<in> set pre. numIn x < numIn l) \<and>
          (\<forall>x \<in> set post. numIn x \<le> numIn l) \<and> t = take_layout E l)) \<and>
    ((\<forall>l \<in> set ms. \<not> takenAtOnce E chIn l \<and> numIn l \<le> 0) \<longrightarrow> t = noTarget)"
proof -
  have scan: "t = namedScan E targetOutputLayout chIn ms noTarget"
    using negotiate_named [OF named, of E c proc] by (simp add: t ms chIn_def procLayouts_def)
  have all_match: "\<forall>l \<in> set ms. describeLayout E l = targetOutputLayout"
    by (simp add: ms)
  have zero: "targetChIn noTarget = 0" by (simp add: noTarget_def)
  have first: "fst (setProcessorBusesLayout E c proc targetOutputLayout) = found t"
    using setProcessorBusesLayout_found [OF ld] by (simp add: t)
  have at_once: "\<exists>pre l post. ms = pre @ l # post \<and> (\<forall>x \<in> set pre. \<not> takenAtOnce E chIn x) \<and>
          takenAtOnce E chIn l \<and> t = take_layout E l"
    if "\<exists>l \<in> set ms. takenAtOnce E chIn l"
  proof -
    from that obtain pre l post where
      d: "ms = pre @ l # post" "takenAtOnce E chIn l" "\<forall>x \<in> set pre. \<not> takenAtOnce E chIn x"
      by (auto simp: split_list_first_prop_iff)
    have "\<forall>x \<in> set pre. describeLayout E x = targetOutputLayout \<and> \<not> takenAtOnce E chIn x"
      using d all_match by auto
    moreover have "describeLayout E l = targetOutputLayout" using d all_match by auto
    ultimately have "namedScan E targetOutputLayout chIn (pre @ l # post) noTarget = take_layout E l"
      using d(2) by (rule namedScan_at_once)
    with d scan show ?thesis by blast
  qed
  have largest: "\<exists>pre l post. ms = pre @ l # post \<and> (\<forall>x \<in> set pre. numIn x < numIn l) \<and>
          (\<forall>x \<in> set post. numIn x \<le> numIn l) \<and> t = take_layout E l"
    if "\<forall>l \<in> set ms. \<not> takenAtOnce E chIn l" "\<exists>l \<in> set ms. 0 < numIn l"
  proof -
    have "\<forall>l \<in> set ms. describeLayout E l = targetOutputLayout \<and> \<not> takenAtOnce E chIn l"
      using that all_match by auto
    from namedScan_largest [OF this, of noTarget] that(2) scan
    show ?thesis unfolding zero numIn_def by blast
  qed
  have none: "t = noTarget" if "\<forall>l \<in> set ms. \<not> takenAtOnce E chIn l \<and> numIn l \<le> 0"
  proof -
    have "\<forall>l \<in> set ms. describeLayout E l = targetOutputLayout \<and> \<not> takenAtOnce E chIn l"
      using that all_match by auto
    from namedScan_largest [OF this, of noTarget] that scan
    show ?thesis unfolding zero numIn_def by blast
  qed
  from first at_once largest none show ?thesis by blast
qed

lemmas negotiation_defs = setProcessorBusesLayout_def negotiate_def exampleCollaborators_def
  exampleNumChannels_def exampleDescribe_def nothingProbed_def stageTakesLayout_def
  stageWithLayouts_def layoutOf_def describeChannelSet_def channelSetSize_def take_layout_def
  noTarget_def takenAtOnce_def emptyChain_def exampleStage_def stereoLayout_def jmax3_def Let_def

text \<open>
  Claim C7, as the code has it. The chain has two input channels; the stage's only
  layout has no inputs and stereo outputs, and its description is the requested name.
  It is the matching candidate with the largest input count, and it is not selected.
\<close>

theorem named_target_unselected_counterexample:
  "loaded instrumentStage \<and>
   filter (\<lambda>l. describeLayout exampleCollaborators l = ''Stereo'')
     (supportedBusLayouts instrumentStage) = [layoutOf [] [Stereo]] \<and>
   fst (negotiate exampleCollaborators emptyChain instrumentStage ''Stereo'') = noTarget \<and>
   fst (setProcessorBusesLayout exampleCollaborators emptyChain instrumentStage ''Stereo'') = False"
  by (simp add: negotiation_defs instrumentStage_def)

text \<open>
  The amended statement at three stages: one with a layout of equal counts, one whose
  matching layouts have 1, 4 and 4 inputs, and the stage without inputs.
\<close>

theorem named_target_negotiation_witness:
  "fst (negotiate exampleCollaborators emptyChain equalCountsStage ''Stereo'') =
     take_layout exampleCollaborators (layoutOf [Stereo] [Stereo]) \<and>
   fst (negotiate exampleCollaborators emptyChain wideInputStage ''Stereo'') =
     take_layout exampleCollaborators (layoutOf [Stereo, Stereo] [Stereo]) \<and>
   fst (negotiate exampleCollaborators emptyChain instrumentStage ''Stereo'') = noTarget \<and>
   fst (setProcessorBusesLayout exampleCollaborators emptyChain wideInputStage ''Stereo'')"
  using named_target_negotiation [of "''Stereo''" equalCountsStage _ exampleCollaborators _ emptyChain,
      OF _ _ _ refl refl]
    named_target_negotiation [of "''Stereo''" wideInputStage _ exampleCollaborators _ emptyChain,
      OF _ _ _ refl refl]
    named_target_negotiation [of "''Stereo''" instrumentStage _ exampleCollaborators _ emptyChain,
      OF _ _ _ refl refl]
  by (simp add: negotiation_defs instrumentStage_def wideInputStage_def equalCountsStage_def)

end
